theory Spec2Isabelle
  imports Main "HOL-Library.Word"
begin

section \<open>JavaScript values\<close>

text \<open>
  The pipeline handles plain JavaScript objects (\<open>CoreMessage\<close>, \<open>CoreMessageMedia\<close>)
  whose type declarations live outside the files under verification, and merges them with
  the untyped library function \<open>defu\<close>.  Objects are therefore modelled as they are at run
  time: an ordered list of own properties.  \<open>JInst\<close> stands for an instance of a class
  (\<open>Api.MessageMediaDocument\<close>, ...), which \<open>defu\<close> does not treat as a plain object;
  \<open>JBuffer\<close> is a node \<open>Buffer\<close>.
\<close>

datatype jsval =
    JUndefined
  | JNull
  | JBool bool
  | JNum int
  | JStr string
  | JBuffer "8 word list"
  | JInst string "(string \<times> jsval) list"
  | JArr "jsval list"
  | JObj "(string \<times> jsval) list"

type_synonym obj = "(string \<times> jsval) list"

text \<open>An object literal never repeats a key.\<close>

definition wf_obj :: "obj \<Rightarrow> bool" where
  "wf_obj m = distinct (map fst m)"

text \<open>\<open>o[key]\<close>: a missing property reads as \<open>undefined\<close>.\<close>

fun get :: "obj \<Rightarrow> string \<Rightarrow> jsval" where
  "get [] key = JUndefined"
| "get ((k, v) # ps) key = (if k = key then v else get ps key)"

text \<open>\<open>o[key] = v\<close>: an existing property keeps its place, a new one is appended.\<close>

fun assign :: "string \<Rightarrow> jsval \<Rightarrow> obj \<Rightarrow> obj" where
  "assign key v [] = [(key, v)]"
| "assign key v ((k, w) # ps) =
     (if k = key then (k, v) # ps else (k, w) # assign key v ps)"

text \<open>JavaScript truthiness, as the conditions \<open>!message.media\<close> and \<open>sticker.byte ? .. : ..\<close> read it.\<close>

fun truthy :: "jsval \<Rightarrow> bool" where
  "truthy JUndefined = False"
| "truthy JNull = False"
| "truthy (JBool b) = b"
| "truthy (JNum n) = (n \<noteq> 0)"
| "truthy (JStr s) = (s \<noteq> [])"
| "truthy _ = True"

section \<open>The merge library function \<open>defu\<close>\<close>

text \<open>
  \<open>processMessages\<close> merges with \<open>defu(m, resolved)\<close> from the npm package \<open>defu\<close>
  (version 6), a dependency and not part of the repository.  Its published implementation
  is, in outline,

  \<^verbatim>\<open>
  function _defu(baseObject, defaults, namespace = ".", merger) {
    if (!isPlainObject(defaults)) return _defu(baseObject, {}, namespace, merger);
    const object = Object.assign({}, defaults);
    for (const key in baseObject) {
      if (key === "__proto__" || key === "constructor") continue;
      const value = baseObject[key];
      if (value === null || value === void 0) continue;
      if (merger && merger(object, key, value, namespace)) continue;  // no merger here
      if (Array.isArray(value) && Array.isArray(object[key]))
        object[key] = [...value, ...object[key]];
      else if (isPlainObject(value) && isPlainObject(object[key]))
        object[key] = _defu(value, object[key], ..., merger);
      else
        object[key] = value;
    }
    return object;
  }
  const defu = (...args) => args.reduce((p, c) => _defu(p, c, ""), {});
  \<close>

  \<open>defu_loop base object\<close> is the \<open>for\<close> loop over the keys of \<open>base\<close>, started on the copy
  \<open>object\<close> of the defaults.  The first argument wins wherever it is neither \<open>null\<close> nor
  \<open>undefined\<close>; the second only fills the gaps; two arrays are concatenated.
\<close>

function defu_loop :: "obj \<Rightarrow> obj \<Rightarrow> obj" where
  "defu_loop [] object = object"
| "defu_loop ((key, value) # rest) object =
     defu_loop rest
       (if key = ''__proto__'' \<or> key = ''constructor'' then object
        else if value = JNull \<or> value = JUndefined then object
        else (case value of
                JArr xs \<Rightarrow> (case get object key of
                              JArr ys \<Rightarrow> assign key (JArr (xs @ ys)) object
                            | _ \<Rightarrow> assign key value object)
              | JObj b \<Rightarrow> (case get object key of
                              JObj d \<Rightarrow> assign key (JObj (defu_loop b d)) object
                            | _ \<Rightarrow> assign key value object)
              | _ \<Rightarrow> assign key value object))"
  by pat_completeness auto
termination
  by (relation "measure (\<lambda>(b, d). size_list (size_prod (\<lambda>_. 0) size) b)") auto

text \<open>\<open>defu(m, resolved)\<close> on two plain objects: the \<open>reduce\<close> starts from \<open>{}\<close>.\<close>

definition defu :: "obj \<Rightarrow> obj \<Rightarrow> obj" where
  "defu m resolved = defu_loop (defu_loop [] m) resolved"

subsection \<open>The effect of the loop on one property\<close>

text \<open>What the loop does to one property, read off the loop body (used to state its effect).\<close>

definition merged_value :: "jsval \<Rightarrow> jsval \<Rightarrow> jsval" where
  "merged_value val old =
     (case val of
        JArr xs \<Rightarrow> (case old of JArr ys \<Rightarrow> JArr (xs @ ys) | _ \<Rightarrow> val)
      | JObj b \<Rightarrow> (case old of JObj d \<Rightarrow> JObj (defu_loop b d) | _ \<Rightarrow> val)
      | _ \<Rightarrow> val)"

definition defu_field :: "string \<Rightarrow> jsval \<Rightarrow> jsval \<Rightarrow> jsval" where
  "defu_field key val old =
     (if key = ''__proto__'' \<or> key = ''constructor'' \<or> val = JNull \<or> val = JUndefined
      then old else merged_value val old)"

text \<open>A value that is defined and is neither an array nor a plain object.\<close>

definition defined_scalar :: "jsval \<Rightarrow> bool" where
  "defined_scalar v =
     (case v of
        JUndefined \<Rightarrow> False
      | JNull \<Rightarrow> False
      | JArr xs \<Rightarrow> False
      | JObj m \<Rightarrow> False
      | _ \<Rightarrow> True)"

section \<open>The orchestrator: \<open>processMessages\<close>\<close>

definition uuid :: "obj \<Rightarrow> jsval" where
  "uuid m = get m ''uuid''"

text \<open>
  \<open>new Map(result.map(m => [m.uuid, m]))\<close>: entries are set in order, so a later entry with
  the same key replaces an earlier one.  Keys are compared as values, which is what the
  \<open>Map\<close> does on the strings that uuids are.
\<close>

definition resultByUuid :: "obj list \<Rightarrow> (jsval \<rightharpoonup> obj)" where
  "resultByUuid result = fold (\<lambda>m mp. mp(uuid m \<mapsto> m)) result Map.empty"

text \<open>Lines 85 to 101: the merge of a resolver's \<open>result\<close> into \<open>emitMessages\<close>.\<close>

definition mergeByUuid :: "obj list \<Rightarrow> obj list \<Rightarrow> obj list" where
  "mergeByUuid emitMessages result =
     (if length result > 0
      then map (\<lambda>m. case resultByUuid result (uuid m) of
                       Some resolved \<Rightarrow> defu m resolved
                     | None \<Rightarrow> m) emitMessages
      else emitMessages)"

subsection \<open>Resolvers, events and the resolver loop\<close>

datatype error = TypeError | Error string

datatype event = MessageData "obj list" | StorageRecordMessages "obj list"

datatype log_entry =
    ProcessMessages nat
  | ConvertedMessages nat
  | ProcessWithResolver string
  | FailedToProcess error

text \<open>
  A resolver offers \<open>run\<close> (a promise of a \<open>Result\<close>: a rejection and an \<open>Err\<close> that
  \<open>unwrap\<close> throws on are both \<open>Inl\<close>) or \<open>stream\<close> (an async generator: the messages it
  yields when drained, and the error it throws after them, if any).
\<close>

record resolver =
  run :: "(obj list \<Rightarrow> error + obj list) option"
  stream :: "(obj list \<Rightarrow> obj list \<times> error option) option"

record pstate =
  emitMessages :: "obj list"
  emitted :: "event list"
  logged :: "log_entry list"

text \<open>
  The body of the \<open>try\<close> block for one resolver: the events emitted while it ran, and either
  the error that left the block or the new value of \<open>emitMessages\<close> (\<open>batch\<close> is its
  value on entry).
\<close>

definition try_resolver :: "resolver \<Rightarrow> obj list \<Rightarrow> event list \<times> (error + obj list)" where
  "try_resolver resolver batch =
     (case run resolver of
        Some f \<Rightarrow>
          (case f batch of
             Inl e \<Rightarrow> ([], Inl e)
           | Inr result \<Rightarrow> ([], Inr (mergeByUuid batch result)))
      | None \<Rightarrow>
          (case stream resolver of
             Some g \<Rightarrow>
               (case g batch of
                  (result, Some e) \<Rightarrow> (map (\<lambda>message. MessageData [message]) result, Inl e)
                | (result, None) \<Rightarrow>
                    (map (\<lambda>message. MessageData [message]) result,
                     Inr (mergeByUuid batch result)))
           | None \<Rightarrow> ([], Inr (mergeByUuid batch []))))"

text \<open>One iteration of \<open>for (const [name, resolver] of resolvers.registry.entries())\<close>.\<close>

definition resolver_step :: "pstate \<Rightarrow> string \<times> resolver \<Rightarrow> pstate" where
  "resolver_step st entry =
     (case try_resolver (snd entry) (emitMessages st) of
        (evs, Inr batch) \<Rightarrow>
          st\<lparr>emitMessages := batch,
             emitted := emitted st @ evs,
             logged := logged st @ [ProcessWithResolver (fst entry)]\<rparr>
      | (evs, Inl e) \<Rightarrow>
          st\<lparr>emitted := emitted st @ evs,
             logged := logged st @ [ProcessWithResolver (fst entry), FailedToProcess e]\<rparr>)"

definition run_registry :: "pstate \<Rightarrow> (string \<times> resolver) list \<Rightarrow> pstate" where
  "run_registry st registry = foldl resolver_step st registry"

text \<open>The native messages of the platform (\<open>Api.TypeMessage\<close>), by class.\<close>

datatype api_message = MessageEmpty obj | Message obj | MessageService obj

definition orUndefined :: "error + 'a \<Rightarrow> 'a option" where
  "orUndefined r = (case r of Inl e \<Rightarrow> None | Inr v \<Rightarrow> Some v)"

text \<open>
  \<open>processMessages\<close>.  \<open>convertToCoreMessage\<close> is declared in \<open>utils/message\<close>, outside the
  files under verification, and is a parameter; the registry is the list of its entries in
  insertion order.  The result is the final state: the batch, every event emitted in order,
  and the log.
\<close>

definition processMessages ::
  "(api_message \<Rightarrow> error + obj) \<Rightarrow> (string \<times> resolver) list \<Rightarrow> api_message list \<Rightarrow> pstate" where
  "processMessages convertToCoreMessage registry messages =
     (let coreMessages =
            map the (filter (\<lambda>message. message \<noteq> None)
                       (map (\<lambda>message. orUndefined (convertToCoreMessage message)) messages));
          st = run_registry
                 \<lparr>emitMessages = coreMessages,
                  emitted = [MessageData coreMessages],
                  logged = [ProcessMessages (length messages),
                            ConvertedMessages (length coreMessages)]\<rparr>
                 registry
      in st\<lparr>emitted := emitted st @ [StorageRecordMessages (emitMessages st)]\<rparr>)"

subsection \<open>Notions for the statements about the loop\<close>

text \<open>A resolver throws on a batch: an error leaves its \<open>try\<close> block.\<close>

definition throws_on :: "resolver \<Rightarrow> obj list \<Rightarrow> bool" where
  "throws_on resolver batch = isl (snd (try_resolver resolver batch))"

text \<open>The names in the log lines \<open>Process messages with resolver\<close>, in order.\<close>

fun resolver_names :: "log_entry list \<Rightarrow> string list" where
  "resolver_names [] = []"
| "resolver_names (ProcessWithResolver n # es) = n # resolver_names es"
| "resolver_names (_ # es) = resolver_names es"

text \<open>The state of \<open>processMessages\<close> when it enters the resolver loop.\<close>

definition initial :: "(api_message \<Rightarrow> error + obj) \<Rightarrow> api_message list \<Rightarrow> pstate" where
  "initial conv msgs =
     (let coreMessages =
            map the (filter (\<lambda>message. message \<noteq> None)
                       (map (\<lambda>message. orUndefined (conv message)) msgs))
      in \<lparr>emitMessages = coreMessages,
          emitted = [MessageData coreMessages],
          logged = [ProcessMessages (length msgs), ConvertedMessages (length coreMessages)]\<rparr>)"

section \<open>The fetch driver: \<open>fetchMessages\<close>\<close>

record pagination =
  limit :: int
  offset :: int

record fetch_options =
  pagination :: pagination
  minId :: "int option"
  maxId :: "int option"

record get_messages_params =
  p_limit :: int
  p_minId :: "int option"
  p_maxId :: "int option"
  p_addOffset :: int

text \<open>
  Of \<open>FetchMessageOpts\<close> the function reads \<open>pagination\<close>, \<open>minId\<close> and \<open>maxId\<close> only.
  Its collaborators are the two client calls it makes (each may reject) and \<open>withError\<close>
  of the context.
\<close>

record fetch_ctx =
  isUserAuthorized :: "error + bool"
  getMessages :: "string \<Rightarrow> get_messages_params \<Rightarrow> error + api_message list"
  withError :: "error \<Rightarrow> string \<Rightarrow> error"

text \<open>How a drained generator ended: \<open>return\<close>, \<open>return Err(e)\<close>, or a throw.\<close>

datatype completion = ReturnUndefined | ReturnErr error | Thrown error

record fetch_result =
  yielded :: "api_message list"
  completion :: completion
  error_log :: "string list"

fun isMessageEmpty :: "api_message \<Rightarrow> bool" where
  "isMessageEmpty (MessageEmpty _) = True"
| "isMessageEmpty _ = False"

text \<open>The loop \<open>for (const message of messages)\<close> with its \<open>continue\<close>.\<close>

fun yield_loop :: "api_message list \<Rightarrow> api_message list" where
  "yield_loop [] = []"
| "yield_loop (message # rest) =
     (if isMessageEmpty message then yield_loop rest else message # yield_loop rest)"

definition fetchMessages :: "fetch_ctx \<Rightarrow> string \<Rightarrow> fetch_options \<Rightarrow> fetch_result" where
  "fetchMessages ctx chatId options =
     (case isUserAuthorized ctx of
        Inl e \<Rightarrow> \<lparr>yielded = [], completion = Thrown e, error_log = []\<rparr>
      | Inr authorized \<Rightarrow>
          if \<not> authorized
          then \<lparr>yielded = [], completion = ReturnUndefined, error_log = [''User not authorized'']\<rparr>
          else
            (case getMessages ctx chatId
                    \<lparr>p_limit = limit (pagination options), p_minId = minId options,
                     p_maxId = maxId options, p_addOffset = offset (pagination options)\<rparr> of
               Inl e \<Rightarrow>
                 \<lparr>yielded = [], completion = ReturnErr (withError ctx e ''Fetch messages failed''),
                  error_log = []\<rparr>
             | Inr messages \<Rightarrow>
                 if length messages = 0
                 then \<lparr>yielded = [],
                       completion = ReturnErr (Error ''Get messages failed or returned empty data''),
                       error_log = [''Get messages failed or returned empty data'']\<rparr>
                 else \<lparr>yielded = yield_loop messages, completion = ReturnUndefined,
                       error_log = []\<rparr>))"

section \<open>The sticker store: \<open>findStickerByFileId\<close>, \<open>recordSticker\<close>\<close>

text \<open>
  The table \<open>stickersTable\<close> as the list of its rows in insertion order, with the columns
  that \<open>recordSticker\<close> writes.  The database is taken to answer every query (\<open>withDb\<close>
  succeeds); values are stored as they are bound.
\<close>

record sticker_row =
  platform :: string
  file_id :: jsval
  sticker_bytes :: jsval
  sticker_path :: jsval
  description :: string
  name :: string
  emoji :: jsval
  label :: string

text \<open>\<open>select().from(stickersTable).where(eq(file_id, fileId)).limit(1)\<close>.\<close>

definition select_by_file_id :: "jsval \<Rightarrow> sticker_row list \<Rightarrow> sticker_row list" where
  "select_by_file_id fileId tbl = take 1 (filter (\<lambda>row. file_id row = fileId) tbl)"

text \<open>\<open>undefined\<close> is \<open>None\<close>, \<open>Ok(sticker[0])\<close> is \<open>Some\<close> of the row.\<close>

definition findStickerByFileId :: "jsval \<Rightarrow> sticker_row list \<Rightarrow> sticker_row option" where
  "findStickerByFileId fileId tbl =
     (case select_by_file_id fileId tbl of
        [] \<Rightarrow> None
      | row # _ \<Rightarrow> Some row)"

text \<open>
  \<open>recordSticker\<close>: the table afterwards and the returned value (the inserted rows, or
  \<open>undefined\<close>).  The argument is a \<open>CoreMessageMedia\<close> object with \<open>sticker_id\<close> and
  \<open>emoji\<close>; \<open>Buffer.from\<close> of a \<open>Buffer\<close>, which \<open>byte\<close> is by its type, is a copy.
\<close>

definition sticker_values :: "obj \<Rightarrow> sticker_row" where
  "sticker_values sticker =
     \<lparr>platform = ''telegram'',
      file_id = get sticker ''sticker_id'',
      sticker_bytes = (if truthy (get sticker ''byte'') then get sticker ''byte'' else JNull),
      sticker_path = get sticker ''path'',
      description = [],
      name = [],
      emoji = (if truthy (get sticker ''emoji'') then get sticker ''emoji'' else JStr []),
      label = []\<rparr>"

definition recordSticker :: "obj \<Rightarrow> sticker_row list \<Rightarrow> sticker_row list \<times> sticker_row list option" where
  "recordSticker sticker tbl =
     (case findStickerByFileId (get sticker ''sticker_id'') tbl of
        None \<Rightarrow> (tbl @ [sticker_values sticker], Some [sticker_values sticker])
      | Some existingSticker \<Rightarrow> (tbl, None))"

section \<open>The media resolver: \<open>createMediaResolver\<close>\<close>

text \<open>
  The collaborators of the resolver: \<open>getMe\<close> gives \<open>(await getClient().getMe()).id.toString()\<close>
  or rejects; \<open>downloadMedia\<close> returns a \<open>Buffer\<close>, something else, or rejects;
  \<open>storageMediaPath\<close> is \<open>getMediaPath(useConfig().path.storage)\<close>; \<open>path_join\<close> is node's
  \<open>join\<close> on two strings and \<open>toString\<close> the method of that name on a value that is neither
  a string nor \<open>null\<close> nor \<open>undefined\<close>.
\<close>

record media_env =
  getMe :: "error + string"
  downloadMedia :: "jsval \<Rightarrow> error + jsval"
  storageMediaPath :: string
  path_join :: "string \<Rightarrow> string \<Rightarrow> string"
  toString :: "jsval \<Rightarrow> string"

text \<open>
  What the resolver reads and changes outside itself: the sticker table, the directories
  that exist, the \<open>writeFile\<close> calls issued (not awaited), and the media references handed
  to \<open>downloadMedia\<close>.  The file system is taken not to fail.
\<close>

record world =
  stickers :: "sticker_row list"
  directories :: "string list"
  written :: "(string \<times> 8 word list) list"
  downloads :: "jsval list"

text \<open>
  Own properties of a value and property access \<open>v.key\<close>, which throws on \<open>null\<close> and
  \<open>undefined\<close>.  Built-in properties of strings and arrays are not modelled.
\<close>

fun props :: "jsval \<Rightarrow> obj" where
  "props (JObj m) = m"
| "props (JInst c m) = m"
| "props _ = []"

definition property :: "jsval \<Rightarrow> string \<Rightarrow> error + jsval" where
  "property v key = (if v = JUndefined \<or> v = JNull then Inl TypeError else Inr (get (props v) key))"

text \<open>\<open>if (!existsSync(p)) mkdirSync(p, { recursive: true })\<close>.\<close>

definition ensure_dir :: "string \<Rightarrow> world \<Rightarrow> world" where
  "ensure_dir p w = (if p \<in> set (directories w) then w else w\<lparr>directories := directories w @ [p]\<rparr>)"

definition useUserMediaPath :: "media_env \<Rightarrow> world \<Rightarrow> world \<times> (error + string)" where
  "useUserMediaPath env w =
     (case getMe env of
        Inl e \<Rightarrow> (w, Inl e)
      | Inr userId \<Rightarrow>
          (let userMediaPath = path_join env (storageMediaPath env) userId
           in (ensure_dir userMediaPath w, Inr userMediaPath)))"

text \<open>\<open>message.chatId.toString()\<close>.\<close>

definition chatId_toString :: "media_env \<Rightarrow> jsval \<Rightarrow> error + string" where
  "chatId_toString env chatId =
     (case chatId of
        JUndefined \<Rightarrow> Inl TypeError
      | JNull \<Rightarrow> Inl TypeError
      | JStr s \<Rightarrow> Inr s
      | _ \<Rightarrow> Inr (toString env chatId))"

text \<open>
  One of the three identical blocks \<open>if (media.type === 'sticker') { ... }\<close>: \<open>Inl\<close> is a
  throw, \<open>Inr (Some v)\<close> is \<open>return v\<close>, \<open>Inr None\<close> falls through to the next statement.
\<close>

definition sticker_block :: "obj \<Rightarrow> world \<Rightarrow> error + jsval option" where
  "sticker_block media w =
     (if get media ''type'' = JStr ''sticker''
      then
        (case property (get media ''apiMedia'') ''document'' of
           Inl e \<Rightarrow> Inl e
         | Inr document \<Rightarrow>
             (case property document ''id'' of
                Inl e \<Rightarrow> Inl e
              | Inr fileId \<Rightarrow>
                  (case findStickerByFileId fileId (stickers w) of
                     Some sticker \<Rightarrow>
                       Inr (Some (JObj (assign ''byte''
                              (if sticker_bytes sticker = JNull \<or> sticker_bytes sticker = JUndefined
                               then JUndefined else sticker_bytes sticker) media)))
                   | None \<Rightarrow> Inr None)))
      else Inr None)"

text \<open>The rest of the callback, from \<open>downloadMedia\<close> on.\<close>

definition download_block :: "media_env \<Rightarrow> obj \<Rightarrow> string \<Rightarrow> obj \<Rightarrow> world \<Rightarrow> world \<times> (error + jsval)" where
  "download_block env message userMediaPath media w =
     (let w1 = w\<lparr>downloads := downloads w @ [get media ''apiMedia'']\<rparr>
      in case downloadMedia env (get media ''apiMedia'') of
           Inl e \<Rightarrow> (w1, Inl e)
         | Inr mediaFetched \<Rightarrow>
             (case get message ''platformMessageId'' of
                JStr platformMessageId \<Rightarrow>
                  (let mediaPath = path_join env userMediaPath platformMessageId;
                       w2 = (case mediaFetched of
                               JBuffer bytes \<Rightarrow> w1\<lparr>written := written w1 @ [(mediaPath, bytes)]\<rparr>
                             | _ \<Rightarrow> w1);
                       byte = (case mediaFetched of JBuffer bytes \<Rightarrow> mediaFetched | _ \<Rightarrow> JUndefined)
                   in (w2, Inr (JObj [(''apiMedia'', get media ''apiMedia''),
                                      (''byte'', byte),
                                      (''type'', get media ''type''),
                                      (''messageUUID'', get media ''messageUUID''),
                                      (''path'', JStr mediaPath)])))
              | _ \<Rightarrow> (w1, Inl TypeError)))"

text \<open>
  The callback \<open>async (media) => { ... }\<close> on one attachment.  An attachment that is
  \<open>null\<close> or \<open>undefined\<close> makes \<open>media.type\<close> throw.
\<close>

definition resolveMedia :: "media_env \<Rightarrow> obj \<Rightarrow> jsval \<Rightarrow> world \<Rightarrow> world \<times> (error + jsval)" where
  "resolveMedia env message media w =
     (case useUserMediaPath env w of
        (w1, Inl e) \<Rightarrow> (w1, Inl e)
      | (w1, Inr userPath) \<Rightarrow>
          (case chatId_toString env (get message ''chatId'') of
             Inl e \<Rightarrow> (w1, Inl e)
           | Inr chatId \<Rightarrow>
               (let userMediaPath = path_join env userPath chatId;
                    w2 = ensure_dir userMediaPath w1
                in if media = JUndefined \<or> media = JNull then (w2, Inl TypeError)
                   else
                     (case sticker_block (props media) w2 of
                        Inl e \<Rightarrow> (w2, Inl e)
                      | Inr (Some v) \<Rightarrow> (w2, Inr v)
                      | Inr None \<Rightarrow>
                     (case sticker_block (props media) w2 of
                        Inl e \<Rightarrow> (w2, Inl e)
                      | Inr (Some v) \<Rightarrow> (w2, Inr v)
                      | Inr None \<Rightarrow>
                     (case sticker_block (props media) w2 of
                        Inl e \<Rightarrow> (w2, Inl e)
                      | Inr (Some v) \<Rightarrow> (w2, Inr v)
                      | Inr None \<Rightarrow>
                          download_block env message userMediaPath (props media) w2))))))"

text \<open>
  The callback once the two directories are known; the three identical sticker blocks
  act as one, since a block that falls through has changed nothing.
\<close>

definition callback_body :: "media_env \<Rightarrow> obj \<Rightarrow> string \<Rightarrow> jsval \<Rightarrow> world \<Rightarrow> world \<times> (error + jsval)" where
  "callback_body env message userMediaPath media w2 =
     (if media = JUndefined \<or> media = JNull then (w2, Inl TypeError)
      else
        (case sticker_block (props media) w2 of
           Inl e \<Rightarrow> (w2, Inl e)
         | Inr (Some v) \<Rightarrow> (w2, Inr v)
         | Inr None \<Rightarrow> download_block env message userMediaPath (props media) w2))"

text \<open>
  \<open>Promise.all(message.media.map(callback))\<close>: every callback runs, in the model one after
  the other in index order; the promise rejects when one of them rejected (with the error
  of the first in index order) and otherwise fulfils with all results in order.
\<close>

fun resolveAll :: "media_env \<Rightarrow> obj \<Rightarrow> jsval list \<Rightarrow> world \<Rightarrow> world \<times> (error + jsval) list" where
  "resolveAll env message [] w = (w, [])"
| "resolveAll env message (media # rest) w =
     (case resolveMedia env message media w of
        (w1, r) \<Rightarrow>
          (case resolveAll env message rest w1 of
             (w2, rs) \<Rightarrow> (w2, r # rs)))"

fun promise_all :: "(error + 'a) list \<Rightarrow> error + 'a list" where
  "promise_all [] = Inr []"
| "promise_all (Inl e # rs) = Inl e"
| "promise_all (Inr v # rs) =
     (case promise_all rs of Inl e \<Rightarrow> Inl e | Inr vs \<Rightarrow> Inr (v # vs))"

text \<open>
  The body of \<open>for (const message of opts.messages)\<close> for one message.  A \<open>media\<close> that is
  truthy, not of length 0 and not an array has no \<open>map\<close> to call, which throws.
\<close>

definition resolveMessage :: "media_env \<Rightarrow> obj \<Rightarrow> world \<Rightarrow> world \<times> (error + obj)" where
  "resolveMessage env message w =
     (case get message ''media'' of
        JArr medias \<Rightarrow>
          if length medias = 0 then (w, Inr message)
          else
            (case resolveAll env message medias w of
               (w1, rs) \<Rightarrow>
                 (case promise_all rs of
                    Inl e \<Rightarrow> (w1, Inl e)
                  | Inr fetchedMedia \<Rightarrow> (w1, Inr (assign ''media'' (JArr fetchedMedia) message))))
      | media \<Rightarrow>
          if \<not> truthy media \<or> get (props media) ''length'' = JNum 0 then (w, Inr message)
          else (w, Inl TypeError))"

text \<open>
  The generator \<open>stream\<close>, drained: the world afterwards, the messages yielded, and the
  error thrown after them, if any.
\<close>

fun media_stream :: "media_env \<Rightarrow> obj list \<Rightarrow> world \<Rightarrow> world \<times> obj list \<times> error option" where
  "media_stream env [] w = (w, [], None)"
| "media_stream env (message # rest) w =
     (case resolveMessage env message w of
        (w1, Inl e) \<Rightarrow> (w1, [], Some e)
      | (w1, Inr resolved) \<Rightarrow>
          (case media_stream env rest w1 of
             (w2, ys, thrown) \<Rightarrow> (w2, resolved # ys, thrown)))"

text \<open>The resolver as the orchestrator sees it, run in a given world.\<close>

definition createMediaResolver :: "media_env \<Rightarrow> world \<Rightarrow> resolver" where
  "createMediaResolver env w =
     \<lparr>run = None,
      stream = Some (\<lambda>messages. case media_stream env messages w of
                                   (w1, ys, thrown) \<Rightarrow> (ys, thrown))\<rparr>"

subsection \<open>Example inputs\<close>

text \<open>
  A message of chat 7 with the given attachments, photos and a sticker with file id
  \<open>f1\<close> that carries a \<open>base64\<close> field, a client whose user id is 42 and whose download
  is a parameter, and a world with a given sticker table.
\<close>

definition example_photo :: "int \<Rightarrow> jsval" where
  "example_photo i =
     JObj [(''type'', JStr ''photo''),
           (''apiMedia'', JInst ''MessageMediaPhoto'' [(''id'', JNum i)]),
           (''messageUUID'', JStr ''u1'')]"

definition example_sticker :: jsval where
  "example_sticker =
     JObj [(''type'', JStr ''sticker''),
           (''apiMedia'', JInst ''MessageMediaDocument''
                            [(''document'', JInst ''Document'' [(''id'', JStr ''f1'')])]),
           (''messageUUID'', JStr ''u1''),
           (''base64'', JStr ''AAAA'')]"

definition example_message :: "jsval list \<Rightarrow> obj" where
  "example_message medias =
     [(''uuid'', JStr ''u1''), (''chatId'', JStr ''7''), (''platformMessageId'', JStr ''100''),
      (''media'', JArr medias)]"

definition example_env :: "(jsval \<Rightarrow> error + jsval) \<Rightarrow> media_env" where
  "example_env download =
     \<lparr>getMe = Inr ''42'', downloadMedia = download, storageMediaPath = ''media'',
      path_join = (\<lambda>a b. a @ ''/'' @ b), toString = (\<lambda>v. ''object'')\<rparr>"

definition second_photo_fails :: "error + jsval \<Rightarrow> jsval \<Rightarrow> error + jsval" where
  "second_photo_fails outcome apiMedia =
     (if apiMedia = JInst ''MessageMediaPhoto'' [(''id'', JNum 2)] then outcome
      else Inr (JBuffer [1, 2, 3]))"

definition example_world :: "sticker_row list \<Rightarrow> world" where
  "example_world tbl = \<lparr>stickers = tbl, directories = [], written = [], downloads = []\<rparr>"

definition cached_sticker :: sticker_row where
  "cached_sticker =
     \<lparr>platform = ''telegram'', file_id = JStr ''f1'', sticker_bytes = JBuffer [7, 7],
      sticker_path = JStr ''p'', description = [], name = [], emoji = JStr ''x'', label = []\<rparr>"

section \<open>Properties of objects and of \<open>defu\<close>\<close>

lemma get_assign: "get (assign k v m) k' = (if k = k' then v else get m k')"
  by (induction m) auto

lemma get_notin: "k \<notin> fst ` set m \<Longrightarrow> get m k = JUndefined"
  by (induction m) auto

lemma defu_loop_Cons:
  "defu_loop ((key, val) # rest) object =
     defu_loop rest
       (if key = ''__proto__'' \<or> key = ''constructor'' \<or> val = JNull \<or> val = JUndefined
        then object else assign key (merged_value val (get object key)) object)"
  by (simp add: merged_value_def split: jsval.splits)

text \<open>The loop decides every property on its own: by the base's value and the default's.\<close>

lemma get_defu_loop:
  "distinct (map fst b) \<Longrightarrow> get (defu_loop b object) k = defu_field k (get b k) (get object k)"
proof (induction b arbitrary: object)
  case Nil
  then show ?case by (simp add: defu_field_def)
next
  case (Cons p b)
  obtain key val where p: "p = (key, val)" by (cases p)
  from Cons.prems p have d: "distinct (map fst b)" and nk: "key \<notin> fst ` set b" by auto
  show ?case
  proof (cases "k = key")
    case True
    then have "get b k = JUndefined" using nk by (simp add: get_notin)
    then show ?thesis
      unfolding p defu_loop_Cons using Cons.IH[OF d] True
      by (simp add: defu_field_def get_assign)
  next
    case False
    then show ?thesis
      unfolding p defu_loop_Cons using Cons.IH[OF d]
      by (simp add: get_assign)
  qed
qed

lemma get_defu: "wf_obj m \<Longrightarrow> get (defu m r) k = defu_field k (get m k) (get r k)"
  by (simp add: defu_def get_defu_loop wf_obj_def)

lemma uuid_defu: "wf_obj m \<Longrightarrow> uuid m = JStr s \<Longrightarrow> uuid (defu m r) = JStr s"
  by (simp add: uuid_def get_defu defu_field_def merged_value_def)

section \<open>Properties of the uuid-keyed merge\<close>

lemma fold_set_None:
  "fold (\<lambda>m mp. mp(uuid m \<mapsto> m)) result mp0 k = None \<longleftrightarrow>
     (k \<notin> uuid ` set result \<and> mp0 k = None)"
  by (induction result arbitrary: mp0) auto

lemma fold_set_Some:
  "fold (\<lambda>m mp. mp(uuid m \<mapsto> m)) result mp0 k = Some r \<Longrightarrow>
     (r \<in> set result \<and> uuid r = k) \<or> mp0 k = Some r"
proof (induction result arbitrary: mp0)
  case Nil
  then show ?case by simp
next
  case (Cons a result)
  from Cons.prems have "fold (\<lambda>m mp. mp(uuid m \<mapsto> m)) result (mp0(uuid a \<mapsto> a)) k = Some r"
    by (simp only: fold_simps)
  from Cons.IH[OF this] show ?case by (auto split: if_splits)
qed

lemma resultByUuid_None: "resultByUuid result k = None \<longleftrightarrow> k \<notin> uuid ` set result"
  by (simp add: resultByUuid_def fold_set_None)

lemma resultByUuid_Some: "resultByUuid result k = Some r \<Longrightarrow> r \<in> set result \<and> uuid r = k"
  using fold_set_Some[of result Map.empty k r] by (simp add: resultByUuid_def)

lemma resultByUuid_distinct:
  assumes "distinct (map uuid R)" and "m2 \<in> set R"
  shows "resultByUuid R (uuid m2) = Some m2"
proof -
  from assms(2) have "resultByUuid R (uuid m2) \<noteq> None" by (simp add: resultByUuid_None)
  then obtain r where r: "resultByUuid R (uuid m2) = Some r" by blast
  from resultByUuid_Some[OF r] have "r \<in> set R" "uuid r = uuid m2" by simp_all
  moreover from assms(1) have "inj_on uuid (set R)" by (simp add: distinct_map)
  ultimately have "r = m2" using assms(2) by (auto dest: inj_onD)
  with r show ?thesis by simp
qed

lemma length_mergeByUuid: "length (mergeByUuid B R) = length B"
  by (simp add: mergeByUuid_def)

lemma mergeByUuid_nth:
  "i < length B \<Longrightarrow> mergeByUuid B R ! i =
     (case resultByUuid R (uuid (B ! i)) of Some resolved \<Rightarrow> defu (B ! i) resolved | None \<Rightarrow> B ! i)"
  by (auto simp add: mergeByUuid_def resultByUuid_def)

text \<open>
  C1.  For a batch \<open>B\<close> of canonical messages (objects whose \<open>uuid\<close> is a string) and any
  resolver result \<open>R\<close>, the merged batch has the length of \<open>B\<close>, carries the uuids of \<open>B\<close>
  in the order of \<open>B\<close>, and holds unchanged, at its own position, every message of \<open>B\<close>
  whose uuid no entry of \<open>R\<close> has.  Neither the uniqueness of the uuids nor \<open>R\<close> being a
  subset of \<open>B\<close> is needed.
\<close>

theorem merge_keeps_batch:
  assumes "\<forall>m \<in> set B. wf_obj m \<and> (\<exists>s. uuid m = JStr s)"
  shows "length (mergeByUuid B R) = length B
       \<and> map uuid (mergeByUuid B R) = map uuid B
       \<and> (\<forall>i < length B. uuid (B ! i) \<notin> uuid ` set R \<longrightarrow> mergeByUuid B R ! i = B ! i)"
proof (intro conjI allI impI)
  show "length (mergeByUuid B R) = length B" by (rule length_mergeByUuid)
next
  show "map uuid (mergeByUuid B R) = map uuid B"
  proof (rule nth_equalityI)
    show "length (map uuid (mergeByUuid B R)) = length (map uuid B)"
      by (simp add: length_mergeByUuid)
  next
    fix i assume "i < length (map uuid (mergeByUuid B R))"
    then have i: "i < length B" by (simp add: length_mergeByUuid)
    then have "B ! i \<in> set B" by simp
    with assms obtain s where wf: "wf_obj (B ! i)" and u: "uuid (B ! i) = JStr s" by blast
    have "uuid (mergeByUuid B R ! i) = uuid (B ! i)"
      using uuid_defu[OF wf u] u by (simp add: mergeByUuid_nth[OF i] split: option.splits)
    then show "map uuid (mergeByUuid B R) ! i = map uuid B ! i"
      using i by (simp add: length_mergeByUuid)
  qed
next
  fix i assume i: "i < length B" and "uuid (B ! i) \<notin> uuid ` set R"
  then have "resultByUuid R (uuid (B ! i)) = None" by (simp add: resultByUuid_None)
  then show "mergeByUuid B R ! i = B ! i" by (simp add: mergeByUuid_nth[OF i])
qed

text \<open>
  The theorem at a batch of three messages and a result that holds the third and the first,
  in that order: the second message is untouched and the order is that of the batch.
\<close>

theorem merge_keeps_batch_witness:
  "wf_obj [(''uuid'', JStr ''a''), (''content'', JStr ''x'')]
   \<and> uuid [(''uuid'', JStr ''a''), (''content'', JStr ''x'')] = JStr ''a''
   \<and> wf_obj [(''uuid'', JStr ''b''), (''content'', JStr ''y'')]
   \<and> uuid [(''uuid'', JStr ''b''), (''content'', JStr ''y'')] = JStr ''b''
   \<and> wf_obj [(''uuid'', JStr ''c'')]
   \<and> uuid [(''uuid'', JStr ''c'')] = JStr ''c''
   \<and> mergeByUuid
         [[(''uuid'', JStr ''a''), (''content'', JStr ''x'')],
          [(''uuid'', JStr ''b''), (''content'', JStr ''y'')],
          [(''uuid'', JStr ''c'')]]
         [[(''uuid'', JStr ''c''), (''content'', JStr ''z'')],
          [(''uuid'', JStr ''a''), (''content'', JStr ''w'')]]
     = [[(''uuid'', JStr ''a''), (''content'', JStr ''x'')],
        [(''uuid'', JStr ''b''), (''content'', JStr ''y'')],
        [(''uuid'', JStr ''c''), (''content'', JStr ''z'')]]"
  using merge_keeps_batch
     [of "[[(''uuid'', JStr ''a''), (''content'', JStr ''x'')],
          [(''uuid'', JStr ''b''), (''content'', JStr ''y'')],
          [(''uuid'', JStr ''c'')]]"
         "[[(''uuid'', JStr ''c''), (''content'', JStr ''z'')],
          [(''uuid'', JStr ''a''), (''content'', JStr ''w'')]]"]
  by (simp add: wf_obj_def uuid_def mergeByUuid_def resultByUuid_def defu_def)

text \<open>
  C2 (as stated: every field the matching entry defines overrides the base's value, and an
  array it defines replaces the base's array) fails.  Base and entry share the uuid and
  both define \<open>content\<close> and \<open>media\<close>: the merged message keeps the base's \<open>content\<close>, and
  its \<open>media\<close> is the base's array followed by the entry's.
\<close>

theorem merge_fields_counterexample:
  "get (mergeByUuid
          [[(''uuid'', JStr ''u1''), (''content'', JStr ''old''),
            (''media'', JArr [JObj [(''type'', JStr ''photo'')]])]]
          [[(''uuid'', JStr ''u1''), (''content'', JStr ''new''),
            (''media'', JArr [JObj [(''type'', JStr ''photo''), (''path'', JStr ''p'')]])]] ! 0)
       ''content'' = JStr ''old''
   \<and> get (mergeByUuid
          [[(''uuid'', JStr ''u1''), (''content'', JStr ''old''),
            (''media'', JArr [JObj [(''type'', JStr ''photo'')]])]]
          [[(''uuid'', JStr ''u1''), (''content'', JStr ''new''),
            (''media'', JArr [JObj [(''type'', JStr ''photo''), (''path'', JStr ''p'')]])]] ! 0)
       ''media'' = JArr [JObj [(''type'', JStr ''photo'')],
                         JObj [(''type'', JStr ''photo''), (''path'', JStr ''p'')]]"
  by (simp add: mergeByUuid_def resultByUuid_def uuid_def defu_def)

text \<open>
  C2, amended.  For a base message \<open>B ! i\<close> and the entry \<open>m2\<close> of a result with unique
  uuids that has its uuid, the merge computes \<open>defu (B ! i) m2\<close>, in which the entry acts as
  defaults: a field the base leaves \<open>undefined\<close> or \<open>null\<close> takes the entry's value; a
  field whose value in the base is defined and is neither an array nor a plain object
  keeps the base's value, whatever the entry holds; and a field the entry leaves
  \<open>undefined\<close> keeps the base's value (a \<open>null\<close> of the base aside, which is dropped).
\<close>

theorem merge_fields_defaults:
  assumes "i < length B" and "wf_obj (B ! i)"
    and "distinct (map uuid R)" and "m2 \<in> set R" and "uuid m2 = uuid (B ! i)"
  shows "mergeByUuid B R ! i = defu (B ! i) m2
       \<and> (\<forall>key. (get (B ! i) key = JUndefined \<or> get (B ! i) key = JNull
                  \<longrightarrow> get (mergeByUuid B R ! i) key = get m2 key)
              \<and> (defined_scalar (get (B ! i) key) \<and> key \<noteq> ''__proto__'' \<and> key \<noteq> ''constructor''
                  \<longrightarrow> get (mergeByUuid B R ! i) key = get (B ! i) key)
              \<and> (get m2 key = JUndefined \<and> get (B ! i) key \<noteq> JNull
                    \<and> key \<noteq> ''__proto__'' \<and> key \<noteq> ''constructor''
                  \<longrightarrow> get (mergeByUuid B R ! i) key = get (B ! i) key))"
proof -
  from resultByUuid_distinct[OF assms(3,4)] assms(5)
  have "resultByUuid R (uuid (B ! i)) = Some m2" by simp
  then have eq: "mergeByUuid B R ! i = defu (B ! i) m2"
    by (simp add: mergeByUuid_nth[OF assms(1)])
  show ?thesis
    unfolding eq get_defu[OF assms(2)]
    by (auto simp: defu_field_def merged_value_def defined_scalar_def split: jsval.splits)
qed

text \<open>
  The amended statement at a base with \<open>content\<close> set, \<open>vectors\<close> null and one
  attachment, and an entry that defines \<open>content\<close> and \<open>vectors\<close> and has no \<open>media\<close>.
\<close>

theorem merge_fields_defaults_witness:
  "get (mergeByUuid
          [[(''uuid'', JStr ''u1''), (''content'', JStr ''old''), (''vectors'', JNull),
            (''media'', JArr [JStr ''a''])]]
          [[(''uuid'', JStr ''u1''), (''content'', JStr ''new''), (''vectors'', JStr ''v'')]] ! 0)
       ''content'' = JStr ''old''
   \<and> get (mergeByUuid
          [[(''uuid'', JStr ''u1''), (''content'', JStr ''old''), (''vectors'', JNull),
            (''media'', JArr [JStr ''a''])]]
          [[(''uuid'', JStr ''u1''), (''content'', JStr ''new''), (''vectors'', JStr ''v'')]] ! 0)
       ''vectors'' = JStr ''v''
   \<and> get (mergeByUuid
          [[(''uuid'', JStr ''u1''), (''content'', JStr ''old''), (''vectors'', JNull),
            (''media'', JArr [JStr ''a''])]]
          [[(''uuid'', JStr ''u1''), (''content'', JStr ''new''), (''vectors'', JStr ''v'')]] ! 0)
       ''media'' = JArr [JStr ''a'']"
proof -
  let ?m = "[(''uuid'', JStr ''u1''), (''content'', JStr ''old''), (''vectors'', JNull),
             (''media'', JArr [JStr ''a''])]"
  let ?m2 = "[(''uuid'', JStr ''u1''), (''content'', JStr ''new''), (''vectors'', JStr ''v'')]"
  have h: "0 < length [?m]" "wf_obj ([?m] ! 0)" "distinct (map uuid [?m2])" "?m2 \<in> set [?m2]"
    "uuid ?m2 = uuid ([?m] ! 0)"
    by (simp_all add: wf_obj_def uuid_def)
  from merge_fields_defaults[OF h]
  have a: "\<forall>key. (get ([?m] ! 0) key = JUndefined \<or> get ([?m] ! 0) key = JNull
                  \<longrightarrow> get (mergeByUuid [?m] [?m2] ! 0) key = get ?m2 key)
              \<and> (defined_scalar (get ([?m] ! 0) key) \<and> key \<noteq> ''__proto__'' \<and> key \<noteq> ''constructor''
                  \<longrightarrow> get (mergeByUuid [?m] [?m2] ! 0) key = get ([?m] ! 0) key)
              \<and> (get ?m2 key = JUndefined \<and> get ([?m] ! 0) key \<noteq> JNull
                    \<and> key \<noteq> ''__proto__'' \<and> key \<noteq> ''constructor''
                  \<longrightarrow> get (mergeByUuid [?m] [?m2] ! 0) key = get ([?m] ! 0) key)"
    by blast
  from a[rule_format, of "''content''"] a[rule_format, of "''vectors''"] a[rule_format, of "''media''"]
  show ?thesis by (simp add: defined_scalar_def)
qed

section \<open>Properties of the resolver loop\<close>

lemma resolver_names_append: "resolver_names (xs @ ys) = resolver_names xs @ resolver_names ys"
  by (induction xs rule: resolver_names.induct) auto

lemma emitMessages_step:
  "emitMessages (resolver_step st entry) =
     (case snd (try_resolver (snd entry) (emitMessages st)) of
        Inr batch \<Rightarrow> batch | Inl e \<Rightarrow> emitMessages st)"
  by (simp add: resolver_step_def split: prod.splits sum.splits)

lemma emitMessages_step_cong:
  "emitMessages st = emitMessages st' \<Longrightarrow>
     emitMessages (resolver_step st entry) = emitMessages (resolver_step st' entry)"
  by (simp add: emitMessages_step split: sum.splits)

lemma run_registry_Nil: "run_registry st [] = st"
  by (simp add: run_registry_def)

lemma run_registry_Cons: "run_registry st (entry # rs) = run_registry (resolver_step st entry) rs"
  by (simp add: run_registry_def)

lemma run_registry_append: "run_registry st (rs @ rs') = run_registry (run_registry st rs) rs'"
  by (simp add: run_registry_def)

lemma emitMessages_registry_cong:
  "emitMessages st = emitMessages st' \<Longrightarrow>
     emitMessages (run_registry st rs) = emitMessages (run_registry st' rs)"
proof (induction rs arbitrary: st st')
  case Nil
  then show ?case by (simp add: run_registry_Nil)
next
  case (Cons entry rs)
  from Cons.prems have "emitMessages (resolver_step st entry) = emitMessages (resolver_step st' entry)"
    by (rule emitMessages_step_cong)
  from Cons.IH[OF this] show ?case by (simp add: run_registry_Cons)
qed

lemma step_throws:
  "throws_on r (emitMessages st) \<Longrightarrow> emitMessages (resolver_step st (nm, r)) = emitMessages st"
  by (auto simp add: emitMessages_step throws_on_def split: sum.splits)

lemma names_step:
  "resolver_names (logged (resolver_step st entry)) = resolver_names (logged st) @ [fst entry]"
  by (simp add: resolver_step_def resolver_names_append split: prod.splits sum.splits)

lemma names_registry:
  "resolver_names (logged (run_registry st rs)) = resolver_names (logged st) @ map fst rs"
  by (induction rs arbitrary: st) (simp_all add: run_registry_Nil run_registry_Cons names_step)

lemma step_throws_logged:
  "throws_on r (emitMessages st) \<Longrightarrow>
     \<exists>e. logged (resolver_step st (nm, r)) = logged st @ [ProcessWithResolver nm, FailedToProcess e]"
  by (auto simp add: resolver_step_def throws_on_def split: prod.splits sum.splits)



lemma processMessages_alt:
  "processMessages conv registry msgs =
     (run_registry (initial conv msgs) registry)
       \<lparr>emitted := emitted (run_registry (initial conv msgs) registry) @
          [StorageRecordMessages (emitMessages (run_registry (initial conv msgs) registry))]\<rparr>"
  by (simp add: processMessages_def initial_def Let_def)

lemma emitMessages_process:
  "emitMessages (processMessages conv registry msgs) = emitMessages (run_registry (initial conv msgs) registry)"
  by (simp add: processMessages_alt)

lemma logged_process:
  "logged (processMessages conv registry msgs) = logged (run_registry (initial conv msgs) registry)"
  by (simp add: processMessages_alt)

text \<open>
  C3.  When a resolver of the registry throws on the batch that reaches it (a rejected
  \<open>run\<close>, an \<open>Err\<close> that \<open>unwrap\<close> throws on, or a \<open>stream\<close> that throws), the batch
  after it is the batch before it, the resolvers after it run on that batch exactly as if
  the failing one were not registered, every resolver of the registry is entered in
  registry order, and \<open>processMessages\<close> completes with the closing
  \<open>storage:record:messages\<close> event: the error stays in the log.
\<close>

theorem resolver_failure_isolated:
  assumes "throws_on r (emitMessages (processMessages conv before msgs))"
  shows "emitMessages (processMessages conv (before @ [(nm, r)]) msgs)
           = emitMessages (processMessages conv before msgs)
       \<and> emitMessages (processMessages conv (before @ (nm, r) # after) msgs)
           = emitMessages (processMessages conv (before @ after) msgs)
       \<and> resolver_names (logged (processMessages conv (before @ (nm, r) # after) msgs))
           = map fst before @ nm # map fst after
       \<and> (\<exists>rest. emitted (processMessages conv (before @ (nm, r) # after) msgs)
             = rest @ [StorageRecordMessages
                         (emitMessages (processMessages conv (before @ after) msgs))])"
proof -
  let ?st = "run_registry (initial conv msgs) before"
  from assms have t: "throws_on r (emitMessages ?st)" by (simp add: emitMessages_process)
  have one: "emitMessages (resolver_step ?st (nm, r)) = emitMessages ?st"
    using t by (rule step_throws)
  have a: "emitMessages (processMessages conv (before @ [(nm, r)]) msgs)
             = emitMessages (processMessages conv before msgs)"
    using one by (simp add: emitMessages_process run_registry_append run_registry_Cons run_registry_Nil)
  have b: "emitMessages (processMessages conv (before @ (nm, r) # after) msgs)
             = emitMessages (processMessages conv (before @ after) msgs)"
    using emitMessages_registry_cong[OF one, of after]
    by (simp add: emitMessages_process run_registry_append run_registry_Cons)
  have c: "resolver_names (logged (processMessages conv (before @ (nm, r) # after) msgs))
             = map fst before @ nm # map fst after"
    by (simp add: logged_process names_registry initial_def Let_def)
  have d: "\<exists>rest. emitted (processMessages conv (before @ (nm, r) # after) msgs)
             = rest @ [StorageRecordMessages
                         (emitMessages (processMessages conv (before @ after) msgs))]"
    unfolding b[symmetric] by (simp add: processMessages_alt)
  from a b c d show ?thesis by blast
qed

text \<open>
  The theorem at a registry whose first resolver rejects and whose second adds a field:
  the field is added to the converted message, and both resolvers were entered.
\<close>

theorem resolver_failure_isolated_witness:
  "throws_on \<lparr>run = Some (\<lambda>b. Inl (Error ''boom'')), stream = None\<rparr>
     (emitMessages (processMessages
        (\<lambda>m. case m of Message ob \<Rightarrow> Inr ob | _ \<Rightarrow> Inl (Error ''empty'')) []
        [Message [(''uuid'', JStr ''a'')], MessageEmpty []]))
   \<and> emitMessages (processMessages
        (\<lambda>m. case m of Message ob \<Rightarrow> Inr ob | _ \<Rightarrow> Inl (Error ''empty''))
        ([] @ (''bad'', \<lparr>run = Some (\<lambda>b. Inl (Error ''boom'')), stream = None\<rparr>)
            # [(''tag'', \<lparr>run = Some (\<lambda>b. Inr (map (assign ''seen'' (JBool True)) b)),
                          stream = None\<rparr>)])
        [Message [(''uuid'', JStr ''a'')], MessageEmpty []])
     = [[(''uuid'', JStr ''a''), (''seen'', JBool True)]]
   \<and> resolver_names (logged (processMessages
        (\<lambda>m. case m of Message ob \<Rightarrow> Inr ob | _ \<Rightarrow> Inl (Error ''empty''))
        ([] @ (''bad'', \<lparr>run = Some (\<lambda>b. Inl (Error ''boom'')), stream = None\<rparr>)
            # [(''tag'', \<lparr>run = Some (\<lambda>b. Inr (map (assign ''seen'' (JBool True)) b)),
                          stream = None\<rparr>)])
        [Message [(''uuid'', JStr ''a'')], MessageEmpty []]))
     = [''bad'', ''tag'']"
proof -
  let ?conv = "\<lambda>m. case m of Message ob \<Rightarrow> Inr ob | _ \<Rightarrow> Inl (Error ''empty'')"
  let ?bad = "\<lparr>run = Some (\<lambda>b. Inl (Error ''boom'')), stream = None\<rparr>"
  let ?tag = "\<lparr>run = Some (\<lambda>b. Inr (map (assign ''seen'' (JBool True)) b)), stream = None\<rparr>"
  let ?msgs = "[Message [(''uuid'', JStr ''a'')], MessageEmpty []]"
  have h: "throws_on ?bad (emitMessages (processMessages ?conv [] ?msgs))"
    by (simp add: throws_on_def try_resolver_def)
  have t: "emitMessages (processMessages ?conv ([] @ [(''tag'', ?tag)]) ?msgs)
             = [[(''uuid'', JStr ''a''), (''seen'', JBool True)]]"
    by (simp add: processMessages_def run_registry_def resolver_step_def try_resolver_def
          mergeByUuid_def resultByUuid_def uuid_def defu_def orUndefined_def)
  from resolver_failure_isolated[OF h, of "''bad''" "[(''tag'', ?tag)]"] h t
  show ?thesis by simp
qed

lemma emitted_step:
  "\<exists>evs. emitted (resolver_step st entry) = emitted st @ evs \<and> (\<forall>ev \<in> set evs. \<exists>m. ev = MessageData [m])"
  by (auto simp add: resolver_step_def try_resolver_def split: prod.splits sum.splits option.splits)

lemma emitted_registry:
  "\<exists>evs. emitted (run_registry st rs) = emitted st @ evs \<and> (\<forall>ev \<in> set evs. \<exists>m. ev = MessageData [m])"
proof (induction rs arbitrary: st)
  case Nil
  then show ?case by (simp add: run_registry_Nil)
next
  case (Cons entry rs)
  obtain evs1 where 1: "emitted (resolver_step st entry) = emitted st @ evs1"
      "\<forall>ev \<in> set evs1. \<exists>m. ev = MessageData [m]"
    using emitted_step by blast
  obtain evs2 where 2: "emitted (run_registry (resolver_step st entry) rs) = emitted (resolver_step st entry) @ evs2"
      "\<forall>ev \<in> set evs2. \<exists>m. ev = MessageData [m]"
    using Cons.IH by blast
  have "emitted (run_registry st (entry # rs)) = emitted st @ (evs1 @ evs2)"
    using 1(1) 2(1) by (simp add: run_registry_Cons)
  moreover have "\<forall>ev \<in> set (evs1 @ evs2). \<exists>m. ev = MessageData [m]"
    using 1(2) 2(2) by auto
  ultimately show ?case by blast
qed

text \<open>
  C10.  The events of \<open>processMessages\<close> are, in order: one \<open>message:data\<close> with the whole
  converted batch, then only \<open>message:data\<close> events of one message each (the stream
  emissions), then \<open>storage:record:messages\<close> with the final batch.  This holds for every
  registry, so also when every resolver fails.
\<close>

theorem batch_emitted_first:
  "\<exists>rest. emitted (processMessages conv registry msgs)
       = MessageData (map the (filter (\<lambda>message. message \<noteq> None)
                                 (map (\<lambda>message. orUndefined (conv message)) msgs)))
         # rest @ [StorageRecordMessages (emitMessages (processMessages conv registry msgs))]
     \<and> (\<forall>ev \<in> set rest. \<exists>m. ev = MessageData [m])"
proof -
  obtain evs where e: "emitted (run_registry (initial conv msgs) registry) = emitted (initial conv msgs) @ evs"
     "\<forall>ev \<in> set evs. \<exists>m. ev = MessageData [m]"
    using emitted_registry by blast
  have "emitted (processMessages conv registry msgs)
       = MessageData (map the (filter (\<lambda>message. message \<noteq> None)
                                 (map (\<lambda>message. orUndefined (conv message)) msgs)))
         # evs @ [StorageRecordMessages (emitMessages (processMessages conv registry msgs))]"
    using e(1) by (simp add: processMessages_alt initial_def Let_def)
  with e(2) show ?thesis by blast
qed

text \<open>
  The theorem at a registry in which every resolver fails, the second after streaming one
  message: the whole batch is emitted first and the final batch last.
\<close>

theorem batch_emitted_first_witness:
  "emitted (processMessages
     (\<lambda>m. case m of Message ob \<Rightarrow> Inr ob | _ \<Rightarrow> Inl (Error ''empty''))
     [(''bad'', \<lparr>run = Some (\<lambda>b. Inl (Error ''boom'')), stream = None\<rparr>),
      (''worse'', \<lparr>run = None, stream = Some (\<lambda>b. (take 1 b, Some (Error ''late'')))\<rparr>)]
     [Message [(''uuid'', JStr ''a'')], MessageEmpty [], Message [(''uuid'', JStr ''b'')]])
   = [MessageData [[(''uuid'', JStr ''a'')], [(''uuid'', JStr ''b'')]],
      MessageData [[(''uuid'', JStr ''a'')]],
      StorageRecordMessages [[(''uuid'', JStr ''a'')], [(''uuid'', JStr ''b'')]]]"
  using batch_emitted_first
    [of "\<lambda>m. case m of Message ob \<Rightarrow> Inr ob | _ \<Rightarrow> Inl (Error ''empty'')"
        "[(''bad'', \<lparr>run = Some (\<lambda>b. Inl (Error ''boom'')), stream = None\<rparr>),
          (''worse'', \<lparr>run = None, stream = Some (\<lambda>b. (take 1 b, Some (Error ''late'')))\<rparr>)]"
        "[Message [(''uuid'', JStr ''a'')], MessageEmpty [], Message [(''uuid'', JStr ''b'')]]"]
  by (simp add: processMessages_def run_registry_def resolver_step_def try_resolver_def
        orUndefined_def Let_def)

section \<open>Properties of \<open>fetchMessages\<close>\<close>

lemma yield_loop_filter: "yield_loop messages = filter (\<lambda>message. \<not> isMessageEmpty message) messages"
  by (induction messages) auto

text \<open>
  C5 asks for a typed \<open>NotAuthorized\<close> error surfaced to the caller when
  \<open>isUserAuthorized\<close> returns false.  The code at that input: for a client that is not
  authorized (and that would have had a message to return), the generator yields nothing
  and ends with a bare \<open>return\<close>, the only trace being the log line.  No error value
  reaches the caller, while the other two failure exits of the function
  \<open>return Err(...)\<close>.
\<close>

theorem fetch_unauthorized_returns_nothing:
  "fetchMessages
     \<lparr>isUserAuthorized = Inr False,
      getMessages = (\<lambda>chatId params. Inr [Message [(''id'', JNum 1)]]),
      withError = (\<lambda>e description. e)\<rparr>
     ''chat''
     \<lparr>pagination = \<lparr>limit = 50, offset = 0\<rparr>, minId = None, maxId = None\<rparr>
   = \<lparr>yielded = [], completion = ReturnUndefined, error_log = [''User not authorized'']\<rparr>"
  by (simp add: fetchMessages_def)

text \<open>
  C6.  When the client is authorized and the platform returns a page, \<open>fetchMessages\<close>
  yields exactly the messages of the page that are not \<open>Api.MessageEmpty\<close>, in the
  order of the page; their number is the length of the page less the number of its
  tombstones.
\<close>

theorem fetch_yields_non_tombstones:
  assumes "isUserAuthorized ctx = Inr True"
    and "getMessages ctx chatId
           \<lparr>p_limit = limit (pagination options), p_minId = minId options,
            p_maxId = maxId options, p_addOffset = offset (pagination options)\<rparr> = Inr page"
  shows "yielded (fetchMessages ctx chatId options) = filter (\<lambda>message. \<not> isMessageEmpty message) page
       \<and> length (yielded (fetchMessages ctx chatId options))
           = length page - length (filter isMessageEmpty page)"
proof -
  have y: "yielded (fetchMessages ctx chatId options) = filter (\<lambda>message. \<not> isMessageEmpty message) page"
    using assms by (cases page) (simp_all add: fetchMessages_def yield_loop_filter)
  have "length (filter (\<lambda>message. \<not> isMessageEmpty message) page) + length (filter isMessageEmpty page)
          = length page"
    using sum_length_filter_compl[of isMessageEmpty page] by simp
  with y show ?thesis by simp
qed

text \<open>
  The theorem at a page of 50 messages whose 21st is a tombstone: the other 49 are
  yielded, in order.
\<close>

theorem fetch_yields_non_tombstones_witness:
  "length (filter isMessageEmpty
            (replicate 20 (Message [(''id'', JNum 1)]) @ MessageEmpty [(''id'', JNum 2)]
               # replicate 29 (Message [(''id'', JNum 3)]))) = 1
   \<and> length (replicate 20 (Message [(''id'', JNum 1)]) @ MessageEmpty [(''id'', JNum 2)]
               # replicate 29 (Message [(''id'', JNum 3)])) = 50
   \<and> yielded (fetchMessages
        \<lparr>isUserAuthorized = Inr True,
         getMessages = (\<lambda>chatId params.
            Inr (replicate 20 (Message [(''id'', JNum 1)]) @ MessageEmpty [(''id'', JNum 2)]
                   # replicate 29 (Message [(''id'', JNum 3)]))),
         withError = (\<lambda>e description. e)\<rparr>
        ''chat''
        \<lparr>pagination = \<lparr>limit = 50, offset = 0\<rparr>, minId = None, maxId = None\<rparr>)
     = replicate 20 (Message [(''id'', JNum 1)]) @ replicate 29 (Message [(''id'', JNum 3)])
   \<and> length (yielded (fetchMessages
        \<lparr>isUserAuthorized = Inr True,
         getMessages = (\<lambda>chatId params.
            Inr (replicate 20 (Message [(''id'', JNum 1)]) @ MessageEmpty [(''id'', JNum 2)]
                   # replicate 29 (Message [(''id'', JNum 3)]))),
         withError = (\<lambda>e description. e)\<rparr>
        ''chat''
        \<lparr>pagination = \<lparr>limit = 50, offset = 0\<rparr>, minId = None, maxId = None\<rparr>)) = 49"
  using fetch_yields_non_tombstones
    [of "\<lparr>isUserAuthorized = Inr True,
         getMessages = (\<lambda>chatId params.
            Inr (replicate 20 (Message [(''id'', JNum 1)]) @ MessageEmpty [(''id'', JNum 2)]
                   # replicate 29 (Message [(''id'', JNum 3)]))),
         withError = (\<lambda>e description. e)\<rparr>"
        "''chat''"
        "\<lparr>pagination = \<lparr>limit = 50, offset = 0\<rparr>, minId = None, maxId = None\<rparr>"
        "replicate 20 (Message [(''id'', JNum 1)]) @ MessageEmpty [(''id'', JNum 2)]
                   # replicate 29 (Message [(''id'', JNum 3)])"]
  by simp

section \<open>Properties of the sticker store\<close>

lemma find_append_new:
  "findStickerByFileId fid tbl = None \<Longrightarrow> file_id row = fid \<Longrightarrow>
     findStickerByFileId fid (tbl @ [row]) = Some row"
  by (auto simp add: findStickerByFileId_def select_by_file_id_def split: list.splits)

lemma find_None_filter:
  "findStickerByFileId fid tbl = None \<longleftrightarrow> filter (\<lambda>row. file_id row = fid) tbl = []"
  by (cases "filter (\<lambda>row. file_id row = fid) tbl")
     (simp_all add: findStickerByFileId_def select_by_file_id_def)

lemma find_after_record:
  "findStickerByFileId (get s ''sticker_id'') (fst (recordSticker s tbl)) \<noteq> None"
  by (cases "findStickerByFileId (get s ''sticker_id'') tbl")
     (simp_all add: recordSticker_def find_append_new sticker_values_def)

text \<open>
  C8.  Recording a sticker and then another with the same file id: the second call leaves
  the table as the first left it and inserts nothing, so no column of the first entry is
  overwritten; when the table had no entry for the file id before, it holds exactly one
  afterwards, with the values of the first call.
\<close>

theorem recordSticker_twice:
  assumes "get s2 ''sticker_id'' = get s1 ''sticker_id''"
  shows "recordSticker s2 (fst (recordSticker s1 tbl)) = (fst (recordSticker s1 tbl), None)
       \<and> (findStickerByFileId (get s1 ''sticker_id'') tbl = None \<longrightarrow>
            filter (\<lambda>row. file_id row = get s1 ''sticker_id'')
                   (fst (recordSticker s2 (fst (recordSticker s1 tbl)))) = [sticker_values s1])"
proof -
  have "findStickerByFileId (get s2 ''sticker_id'') (fst (recordSticker s1 tbl)) \<noteq> None"
    using find_after_record[of s1 tbl] assms by simp
  then have a: "recordSticker s2 (fst (recordSticker s1 tbl)) = (fst (recordSticker s1 tbl), None)"
    by (auto simp add: recordSticker_def split: option.splits)
  have b: "findStickerByFileId (get s1 ''sticker_id'') tbl = None \<longrightarrow>
            filter (\<lambda>row. file_id row = get s1 ''sticker_id'') (fst (recordSticker s1 tbl))
              = [sticker_values s1]"
  proof
    assume n: "findStickerByFileId (get s1 ''sticker_id'') tbl = None"
    then have "fst (recordSticker s1 tbl) = tbl @ [sticker_values s1]"
      by (simp add: recordSticker_def)
    moreover from n have "filter (\<lambda>row. file_id row = get s1 ''sticker_id'') tbl = []"
      by (simp add: find_None_filter)
    moreover have "file_id (sticker_values s1) = get s1 ''sticker_id''"
      by (simp add: sticker_values_def)
    ultimately show "filter (\<lambda>row. file_id row = get s1 ''sticker_id'') (fst (recordSticker s1 tbl))
              = [sticker_values s1]"
      by simp
  qed
  from a b show ?thesis by simp
qed

text \<open>
  The theorem on an empty table: the second sticker, with other bytes and another path,
  changes nothing.
\<close>

theorem recordSticker_twice_witness:
  "get [(''sticker_id'', JStr ''f1''), (''byte'', JBuffer [9]), (''path'', JStr ''q'')] ''sticker_id''
     = get [(''sticker_id'', JStr ''f1''), (''byte'', JBuffer [1, 2]), (''path'', JStr ''p''),
            (''emoji'', JStr ''x'')] ''sticker_id''
   \<and> findStickerByFileId (JStr ''f1'') [] = None
   \<and> fst (recordSticker
            [(''sticker_id'', JStr ''f1''), (''byte'', JBuffer [9]), (''path'', JStr ''q'')]
            (fst (recordSticker
                    [(''sticker_id'', JStr ''f1''), (''byte'', JBuffer [1, 2]), (''path'', JStr ''p''),
                     (''emoji'', JStr ''x'')] [])))
     = [\<lparr>platform = ''telegram'', file_id = JStr ''f1'', sticker_bytes = JBuffer [1, 2],
         sticker_path = JStr ''p'', description = [], name = [], emoji = JStr ''x'',
         label = []\<rparr>]"
  using recordSticker_twice
    [of "[(''sticker_id'', JStr ''f1''), (''byte'', JBuffer [9]), (''path'', JStr ''q'')]"
        "[(''sticker_id'', JStr ''f1''), (''byte'', JBuffer [1, 2]), (''path'', JStr ''p''),
          (''emoji'', JStr ''x'')]" "[]"]
  by (simp add: recordSticker_def findStickerByFileId_def select_by_file_id_def sticker_values_def)

section \<open>Properties of the media resolver\<close>

lemma stickers_ensure_dir: "stickers (ensure_dir p w) = stickers w"
  by (simp add: ensure_dir_def)

lemma downloads_ensure_dir: "downloads (ensure_dir p w) = downloads w"
  by (simp add: ensure_dir_def)

lemma sticker_block_cong: "stickers w = stickers w' \<Longrightarrow> sticker_block m w = sticker_block m w'"
  by (simp add: sticker_block_def split: sum.splits)

lemma download_block_result_cong:
  "snd (download_block env message p m w) = snd (download_block env message p m w')"
  by (simp add: download_block_def Let_def split: sum.splits jsval.splits)

lemma stickers_download_block: "stickers (fst (download_block env message p m w)) = stickers w"
  by (simp add: download_block_def Let_def split: sum.splits jsval.splits)


lemma resolveMedia_body:
  "resolveMedia env message media w =
     (case getMe env of
        Inl e \<Rightarrow> (w, Inl e)
      | Inr userId \<Rightarrow>
          (case chatId_toString env (get message ''chatId'') of
             Inl e \<Rightarrow> (ensure_dir (path_join env (storageMediaPath env) userId) w, Inl e)
           | Inr chatId \<Rightarrow>
               callback_body env message
                 (path_join env (path_join env (storageMediaPath env) userId) chatId) media
                 (ensure_dir (path_join env (path_join env (storageMediaPath env) userId) chatId)
                    (ensure_dir (path_join env (storageMediaPath env) userId) w))))"
  by (simp add: resolveMedia_def useUserMediaPath_def callback_body_def Let_def
           split: sum.splits option.splits)

lemma callback_body_result_cong:
  "stickers w = stickers w' \<Longrightarrow>
     snd (callback_body env message p media w) = snd (callback_body env message p media w')"
  using sticker_block_cong[of w w' "props media"] download_block_result_cong[of env message p "props media" w w']
  by (simp add: callback_body_def split: sum.splits option.splits)

lemma stickers_callback_body: "stickers (fst (callback_body env message p media w)) = stickers w"
  by (simp add: callback_body_def stickers_download_block split: sum.splits option.splits)

lemma resolveMedia_result_cong:
  "stickers w = stickers w' \<Longrightarrow>
     snd (resolveMedia env message media w) = snd (resolveMedia env message media w')"
  by (auto simp add: resolveMedia_body stickers_ensure_dir split: sum.splits
           intro!: callback_body_result_cong)

lemma stickers_resolveMedia: "stickers (fst (resolveMedia env message media w)) = stickers w"
  by (simp add: resolveMedia_body stickers_callback_body stickers_ensure_dir split: sum.splits)

lemma stickers_resolveAll: "stickers (fst (resolveAll env message medias w)) = stickers w"
proof (induction medias arbitrary: w)
  case Nil
  then show ?case by simp
next
  case (Cons media medias)
  obtain w1 r where 1: "resolveMedia env message media w = (w1, r)" by (cases "resolveMedia env message media w")
  obtain w2 rs where 2: "resolveAll env message medias w1 = (w2, rs)" by (cases "resolveAll env message medias w1")
  have "stickers w1 = stickers w" using stickers_resolveMedia[of env message media w] 1 by simp
  moreover have "stickers w2 = stickers w1" using Cons.IH[of w1] 2 by simp
  ultimately show ?case using 1 2 by simp
qed

lemma results_resolveAll:
  "snd (resolveAll env message medias w) = map (\<lambda>media. snd (resolveMedia env message media w)) medias"
proof (induction medias arbitrary: w)
  case Nil
  then show ?case by simp
next
  case (Cons media medias)
  obtain w1 r where 1: "resolveMedia env message media w = (w1, r)" by (cases "resolveMedia env message media w")
  obtain w2 rs where 2: "resolveAll env message medias w1 = (w2, rs)" by (cases "resolveAll env message medias w1")
  have s: "stickers w1 = stickers w" using stickers_resolveMedia[of env message media w] 1 by simp
  have "rs = map (\<lambda>media. snd (resolveMedia env message media w1)) medias"
    using Cons.IH[of w1] 2 by simp
  also have "\<dots> = map (\<lambda>media. snd (resolveMedia env message media w)) medias"
    using resolveMedia_result_cong[OF s] by simp
  finally show ?case using 1 2 by simp
qed

lemma promise_all_fulfilled:
  "\<forall>r \<in> set rs. \<not> isl r \<Longrightarrow> promise_all rs = Inr (map projr rs)"
proof (induction rs)
  case Nil
  then show ?case by simp
next
  case (Cons r rs)
  then obtain v where "r = Inr v" by (cases r) auto
  with Cons show ?case by simp
qed

lemma promise_all_rejected:
  "r \<in> set rs \<Longrightarrow> isl r \<Longrightarrow> isl (promise_all rs)"
proof (induction rs)
  case Nil
  then show ?case by simp
next
  case (Cons a rs)
  then show ?case by (cases a) (auto split: sum.splits)
qed

lemmas example_defs = example_photo_def example_sticker_def example_message_def example_env_def
  second_photo_fails_def example_world_def cached_sticker_def

lemmas media_defs = resolveMessage_def resolveMedia_def useUserMediaPath_def ensure_dir_def
  chatId_toString_def sticker_block_def download_block_def property_def
  findStickerByFileId_def select_by_file_id_def Let_def

text \<open>
  C4 (as stated: one attachment's failed download leaves the message emitted, the failed
  attachment without bytes and path, and raises no resolver-level error) fails.  For a
  message with three photos: when the second download rejects, the stream yields no
  message and throws, and the orchestrator's \<open>try\<close> block for the resolver ends in that
  error; when the second download returns \<open>undefined\<close>, the attachment has no bytes but
  does have the media path.
\<close>

theorem attachment_failure_counterexample:
  "snd (media_stream (example_env (second_photo_fails (Inl (Error ''timeout''))))
          [example_message [example_photo 1, example_photo 2, example_photo 3]]
          (example_world []))
     = ([], Some (Error ''timeout''))
   \<and> try_resolver
         (createMediaResolver (example_env (second_photo_fails (Inl (Error ''timeout''))))
            (example_world []))
         [example_message [example_photo 1, example_photo 2, example_photo 3]]
     = ([], Inl (Error ''timeout''))
   \<and> snd (resolveMedia (example_env (second_photo_fails (Inr JUndefined)))
              (example_message [example_photo 1, example_photo 2, example_photo 3])
              (example_photo 2) (example_world []))
     = Inr (JObj [(''apiMedia'', JInst ''MessageMediaPhoto'' [(''id'', JNum 2)]),
                  (''byte'', JUndefined),
                  (''type'', JStr ''photo''),
                  (''messageUUID'', JStr ''u1''),
                  (''path'', JStr ''media/42/7/100'')])"
  by (simp add: example_defs media_defs try_resolver_def createMediaResolver_def)

lemma resolveMessage_media:
  assumes "get message ''media'' = JArr medias" and "medias \<noteq> []"
  shows "snd (resolveMessage env message w) =
     (case promise_all (map (\<lambda>media. snd (resolveMedia env message media w)) medias) of
        Inl e \<Rightarrow> Inl e
      | Inr fetchedMedia \<Rightarrow> Inr (assign ''media'' (JArr fetchedMedia) message))"
proof -
  obtain w1 rs where ra: "resolveAll env message medias w = (w1, rs)"
    by (cases "resolveAll env message medias w")
  with results_resolveAll[of env message medias w]
  have rs: "rs = map (\<lambda>media. snd (resolveMedia env message media w)) medias" by simp
  show ?thesis
    using assms ra unfolding rs[symmetric]
    by (simp add: resolveMessage_def split: sum.splits)
qed

lemma reaches_download:
  assumes "getMe env = Inr userId" and "get message ''chatId'' = JStr chatId"
    and "media \<noteq> JUndefined" and "media \<noteq> JNull"
    and "sticker_block (props media) w = Inr None"
  shows "resolveMedia env message media w =
           download_block env message
             (path_join env (path_join env (storageMediaPath env) userId) chatId) (props media)
             (ensure_dir (path_join env (path_join env (storageMediaPath env) userId) chatId)
                (ensure_dir (path_join env (storageMediaPath env) userId) w))"
proof -
  let ?w2 = "ensure_dir (path_join env (path_join env (storageMediaPath env) userId) chatId)
                (ensure_dir (path_join env (storageMediaPath env) userId) w)"
  have "stickers ?w2 = stickers w" by (simp add: stickers_ensure_dir)
  from sticker_block_cong[OF this] assms(5)
  have "sticker_block (props media) ?w2 = Inr None" by simp
  with assms(1-4) show ?thesis
    by (simp add: resolveMedia_body callback_body_def chatId_toString_def)
qed

text \<open>
  C4, amended.  For a message with attachments none of whose callbacks throws, the message
  is emitted with one attachment per input attachment, in order, each being what the
  callback gives for it alone in the world the message was met in: no attachment's outcome
  depends on another's.  An attachment that reaches the download, whose download returns
  \<open>v\<close>, comes back with \<open>byte\<close> set to \<open>v\<close> when \<open>v\<close> is a \<open>Buffer\<close> and to
  \<open>undefined\<close> otherwise, and in both cases with \<open>path\<close> set to the media path of the
  message.
\<close>

theorem attachment_failure_without_throw:
  assumes "get message ''media'' = JArr medias" and "medias \<noteq> []"
    and "\<forall>media \<in> set medias. \<not> isl (snd (resolveMedia env message media w))"
  shows "snd (resolveMessage env message w)
           = Inr (assign ''media''
                    (JArr (map (\<lambda>media. projr (snd (resolveMedia env message media w))) medias))
                    message)
       \<and> (\<forall>media \<in> set medias. \<forall>userId chatId pid v.
             getMe env = Inr userId \<and> get message ''chatId'' = JStr chatId
             \<and> get message ''platformMessageId'' = JStr pid
             \<and> sticker_block (props media) w = Inr None
             \<and> downloadMedia env (get (props media) ''apiMedia'') = Inr v
             \<longrightarrow> snd (resolveMedia env message media w)
                   = Inr (JObj [(''apiMedia'', get (props media) ''apiMedia''),
                                (''byte'', case v of JBuffer bytes \<Rightarrow> v | _ \<Rightarrow> JUndefined),
                                (''type'', get (props media) ''type''),
                                (''messageUUID'', get (props media) ''messageUUID''),
                                (''path'', JStr (path_join env
                                   (path_join env (path_join env (storageMediaPath env) userId) chatId)
                                   pid))]))"
proof (intro conjI ballI allI impI)
  from assms(3) have "\<forall>r \<in> set (map (\<lambda>media. snd (resolveMedia env message media w)) medias). \<not> isl r"
    by simp
  from promise_all_fulfilled[OF this]
  show "snd (resolveMessage env message w)
           = Inr (assign ''media''
                    (JArr (map (\<lambda>media. projr (snd (resolveMedia env message media w))) medias))
                    message)"
    by (simp add: resolveMessage_media[OF assms(1,2)] comp_def)
next
  fix media userId chatId pid v
  assume m: "media \<in> set medias"
    and h: "getMe env = Inr userId \<and> get message ''chatId'' = JStr chatId
             \<and> get message ''platformMessageId'' = JStr pid
             \<and> sticker_block (props media) w = Inr None
             \<and> downloadMedia env (get (props media) ''apiMedia'') = Inr v"
  from assms(3) m have nt: "\<not> isl (snd (resolveMedia env message media w))" by blast
  have nn: "media \<noteq> JUndefined \<and> media \<noteq> JNull"
    using nt h by (auto simp add: resolveMedia_body callback_body_def chatId_toString_def)
  from h nn have "resolveMedia env message media w =
           download_block env message
             (path_join env (path_join env (storageMediaPath env) userId) chatId) (props media)
             (ensure_dir (path_join env (path_join env (storageMediaPath env) userId) chatId)
                (ensure_dir (path_join env (storageMediaPath env) userId) w))"
    by (intro reaches_download) simp_all
  then show "snd (resolveMedia env message media w)
                   = Inr (JObj [(''apiMedia'', get (props media) ''apiMedia''),
                                (''byte'', case v of JBuffer bytes \<Rightarrow> v | _ \<Rightarrow> JUndefined),
                                (''type'', get (props media) ''type''),
                                (''messageUUID'', get (props media) ''messageUUID''),
                                (''path'', JStr (path_join env
                                   (path_join env (path_join env (storageMediaPath env) userId) chatId)
                                   pid))])"
    using h by (simp add: download_block_def Let_def split: jsval.splits)
qed

text \<open>
  The theorem at the message with three photos where the second download returns
  \<open>undefined\<close>: photos one and three carry their bytes, photo two has none.
\<close>

theorem attachment_failure_without_throw_witness:
  "get (example_message [example_photo 1, example_photo 2, example_photo 3]) ''media''
     = JArr [example_photo 1, example_photo 2, example_photo 3]
   \<and> \<not> isl (snd (resolveMedia (example_env (second_photo_fails (Inr JUndefined)))
              (example_message [example_photo 1, example_photo 2, example_photo 3])
              (example_photo 1) (example_world [])))
   \<and> \<not> isl (snd (resolveMedia (example_env (second_photo_fails (Inr JUndefined)))
              (example_message [example_photo 1, example_photo 2, example_photo 3])
              (example_photo 2) (example_world [])))
   \<and> \<not> isl (snd (resolveMedia (example_env (second_photo_fails (Inr JUndefined)))
              (example_message [example_photo 1, example_photo 2, example_photo 3])
              (example_photo 3) (example_world [])))
   \<and> snd (resolveMessage (example_env (second_photo_fails (Inr JUndefined)))
            (example_message [example_photo 1, example_photo 2, example_photo 3])
            (example_world []))
     = Inr [(''uuid'', JStr ''u1''), (''chatId'', JStr ''7''), (''platformMessageId'', JStr ''100''),
            (''media'', JArr
               [JObj [(''apiMedia'', JInst ''MessageMediaPhoto'' [(''id'', JNum 1)]),
                      (''byte'', JBuffer [1, 2, 3]), (''type'', JStr ''photo''),
                      (''messageUUID'', JStr ''u1''), (''path'', JStr ''media/42/7/100'')],
                JObj [(''apiMedia'', JInst ''MessageMediaPhoto'' [(''id'', JNum 2)]),
                      (''byte'', JUndefined), (''type'', JStr ''photo''),
                      (''messageUUID'', JStr ''u1''), (''path'', JStr ''media/42/7/100'')],
                JObj [(''apiMedia'', JInst ''MessageMediaPhoto'' [(''id'', JNum 3)]),
                      (''byte'', JBuffer [1, 2, 3]), (''type'', JStr ''photo''),
                      (''messageUUID'', JStr ''u1''), (''path'', JStr ''media/42/7/100'')]])]"
proof -
  let ?env = "example_env (second_photo_fails (Inr JUndefined))"
  let ?medias = "[example_photo 1, example_photo 2, example_photo 3]"
  let ?message = "example_message ?medias"
  have r: "snd (resolveMedia ?env ?message (example_photo 1) (example_world []))
             = Inr (JObj [(''apiMedia'', JInst ''MessageMediaPhoto'' [(''id'', JNum 1)]),
                      (''byte'', JBuffer [1, 2, 3]), (''type'', JStr ''photo''),
                      (''messageUUID'', JStr ''u1''), (''path'', JStr ''media/42/7/100'')])"
    "snd (resolveMedia ?env ?message (example_photo 2) (example_world []))
             = Inr (JObj [(''apiMedia'', JInst ''MessageMediaPhoto'' [(''id'', JNum 2)]),
                      (''byte'', JUndefined), (''type'', JStr ''photo''),
                      (''messageUUID'', JStr ''u1''), (''path'', JStr ''media/42/7/100'')])"
    "snd (resolveMedia ?env ?message (example_photo 3) (example_world []))
             = Inr (JObj [(''apiMedia'', JInst ''MessageMediaPhoto'' [(''id'', JNum 3)]),
                      (''byte'', JBuffer [1, 2, 3]), (''type'', JStr ''photo''),
                      (''messageUUID'', JStr ''u1''), (''path'', JStr ''media/42/7/100'')])"
    by (simp_all add: example_defs media_defs)
  have h1: "get ?message ''media'' = JArr ?medias" by (simp add: example_message_def)
  have h2: "?medias \<noteq> []" by simp
  have h3: "\<forall>media \<in> set ?medias. \<not> isl (snd (resolveMedia ?env ?message media (example_world [])))"
    using r by simp
  from attachment_failure_without_throw[OF h1 h2 h3]
  have "snd (resolveMessage ?env ?message (example_world []))
           = Inr (assign ''media''
                    (JArr (map (\<lambda>media. projr (snd (resolveMedia ?env ?message media (example_world [])))) ?medias))
                    ?message)"
    by blast
  then show ?thesis using r h1 by (simp add: example_message_def)
qed

lemma stickers_resolveMessage: "stickers (fst (resolveMessage env message w)) = stickers w"
proof (cases "get message ''media''")
  case (JArr medias)
  obtain w1 rs where ra: "resolveAll env message medias w = (w1, rs)"
    by (cases "resolveAll env message medias w")
  with stickers_resolveAll[of env message medias w] have "stickers w1 = stickers w" by simp
  with JArr ra show ?thesis by (simp add: resolveMessage_def split: sum.splits)
qed (simp_all add: resolveMessage_def)

lemma stickers_media_stream: "stickers (fst (media_stream env messages w)) = stickers w"
proof (induction messages arbitrary: w)
  case Nil
  then show ?case by simp
next
  case (Cons message messages)
  obtain w1 r where 1: "resolveMessage env message w = (w1, r)"
    by (cases "resolveMessage env message w")
  with stickers_resolveMessage[of env message w] have s1: "stickers w1 = stickers w" by simp
  show ?case
  proof (cases r)
    case (Inl e)
    with 1 s1 show ?thesis by simp
  next
    case (Inr resolved)
    obtain w2 ys thrown where 2: "media_stream env messages w1 = (w2, ys, thrown)"
      by (cases "media_stream env messages w1")
    with Cons.IH[of w1] have "stickers w2 = stickers w1" by simp
    with 1 2 Inr s1 show ?thesis by simp
  qed
qed

text \<open>
  C7 (as stated: on a cache miss the downloaded bytes are written through into the sticker
  cache) fails.  With an empty sticker table, the sticker of file id \<open>f1\<close> is downloaded
  and emitted with its bytes, and the table is still empty afterwards: a second lookup of
  \<open>f1\<close> misses again.
\<close>

theorem sticker_write_through_counterexample:
  "snd (media_stream (example_env (\<lambda>apiMedia. Inr (JBuffer [1, 2, 3])))
          [example_message [example_sticker]] (example_world []))
     = ([[(''uuid'', JStr ''u1''), (''chatId'', JStr ''7''), (''platformMessageId'', JStr ''100''),
          (''media'', JArr
             [JObj [(''apiMedia'', JInst ''MessageMediaDocument''
                                     [(''document'', JInst ''Document'' [(''id'', JStr ''f1'')])]),
                    (''byte'', JBuffer [1, 2, 3]), (''type'', JStr ''sticker''),
                    (''messageUUID'', JStr ''u1''), (''path'', JStr ''media/42/7/100'')]])]],
        None)
   \<and> stickers (fst (media_stream (example_env (\<lambda>apiMedia. Inr (JBuffer [1, 2, 3])))
                      [example_message [example_sticker]] (example_world []))) = []
   \<and> findStickerByFileId (JStr ''f1'')
        (stickers (fst (media_stream (example_env (\<lambda>apiMedia. Inr (JBuffer [1, 2, 3])))
                          [example_message [example_sticker]] (example_world [])))) = None"
  by (simp add: example_defs media_defs)

text \<open>
  C7, amended.  For an attachment of kind sticker whose file id can be read: on a cache
  hit the attachment comes back as it was with \<open>byte\<close> set to the cached bytes
  (\<open>undefined\<close> when the row holds none) and no download is requested; on a miss the
  download is requested, and when it returns a \<open>Buffer\<close> the attachment carries those
  bytes.  The resolver never writes the sticker table: after the stream it is the table
  from before.
\<close>

theorem sticker_lookup_before_download:
  assumes "get m ''type'' = JStr ''sticker''"
    and "property (get m ''apiMedia'') ''document'' = Inr document"
    and "property document ''id'' = Inr fileId"
    and "getMe env = Inr userId" and "get message ''chatId'' = JStr chatId"
  shows "(\<forall>sticker. findStickerByFileId fileId (stickers w) = Some sticker \<longrightarrow>
            snd (resolveMedia env message (JObj m) w)
              = Inr (JObj (assign ''byte''
                      (if sticker_bytes sticker = JNull \<or> sticker_bytes sticker = JUndefined
                       then JUndefined else sticker_bytes sticker) m))
            \<and> downloads (fst (resolveMedia env message (JObj m) w)) = downloads w)
       \<and> (findStickerByFileId fileId (stickers w) = None \<longrightarrow>
            downloads (fst (resolveMedia env message (JObj m) w)) = downloads w @ [get m ''apiMedia'']
            \<and> (\<forall>bytes pid. downloadMedia env (get m ''apiMedia'') = Inr (JBuffer bytes)
                  \<and> get message ''platformMessageId'' = JStr pid \<longrightarrow>
                 get (props (projr (snd (resolveMedia env message (JObj m) w)))) ''byte''
                   = JBuffer bytes))
       \<and> stickers (fst (media_stream env messages w0)) = stickers w0"
proof -
  let ?p = "path_join env (path_join env (storageMediaPath env) userId) chatId"
  let ?w2 = "ensure_dir ?p (ensure_dir (path_join env (storageMediaPath env) userId) w)"
  have st: "stickers ?w2 = stickers w" by (simp add: stickers_ensure_dir)
  have dl: "downloads ?w2 = downloads w" by (simp add: downloads_ensure_dir)
  have body: "resolveMedia env message (JObj m) w = callback_body env message ?p (JObj m) ?w2"
    using assms(4,5) by (simp add: resolveMedia_body chatId_toString_def)
  have hit: "snd (resolveMedia env message (JObj m) w)
              = Inr (JObj (assign ''byte''
                      (if sticker_bytes sticker = JNull \<or> sticker_bytes sticker = JUndefined
                       then JUndefined else sticker_bytes sticker) m))
            \<and> downloads (fst (resolveMedia env message (JObj m) w)) = downloads w"
    if "findStickerByFileId fileId (stickers w) = Some sticker" for sticker
    using that assms(1-3) st dl by (simp add: body callback_body_def sticker_block_def)
  have miss: "resolveMedia env message (JObj m) w = download_block env message ?p m ?w2"
    if "findStickerByFileId fileId (stickers w) = None"
    using that assms(1-3) st by (simp add: body callback_body_def sticker_block_def)
  have miss1: "downloads (fst (resolveMedia env message (JObj m) w)) = downloads w @ [get m ''apiMedia'']"
    if "findStickerByFileId fileId (stickers w) = None"
    using dl by (simp add: miss[OF that] download_block_def Let_def split: sum.splits jsval.splits)
  have miss2: "get (props (projr (snd (resolveMedia env message (JObj m) w)))) ''byte'' = JBuffer bytes"
    if "findStickerByFileId fileId (stickers w) = None"
      and "downloadMedia env (get m ''apiMedia'') = Inr (JBuffer bytes)"
      and "get message ''platformMessageId'' = JStr pid" for bytes pid
    using that(2,3) by (simp add: miss[OF that(1)] download_block_def Let_def)
  from hit miss1 miss2 stickers_media_stream[of env messages w0] show ?thesis by blast
qed

text \<open>
  The theorem at the sticker \<open>f1\<close>: with the row cached nothing is downloaded, with an
  empty table the media reference is.
\<close>

theorem sticker_lookup_before_download_witness:
  "snd (resolveMedia (example_env (\<lambda>apiMedia. Inr (JBuffer [1, 2, 3])))
          (example_message [example_sticker]) example_sticker (example_world [cached_sticker]))
     = Inr (JObj [(''type'', JStr ''sticker''),
                  (''apiMedia'', JInst ''MessageMediaDocument''
                                   [(''document'', JInst ''Document'' [(''id'', JStr ''f1'')])]),
                  (''messageUUID'', JStr ''u1''),
                  (''base64'', JStr ''AAAA''),
                  (''byte'', JBuffer [7, 7])])
   \<and> downloads (fst (resolveMedia (example_env (\<lambda>apiMedia. Inr (JBuffer [1, 2, 3])))
          (example_message [example_sticker]) example_sticker (example_world [cached_sticker])))
     = []
   \<and> downloads (fst (resolveMedia (example_env (\<lambda>apiMedia. Inr (JBuffer [1, 2, 3])))
          (example_message [example_sticker]) example_sticker (example_world [])))
     = [JInst ''MessageMediaDocument'' [(''document'', JInst ''Document'' [(''id'', JStr ''f1'')])]]"
proof -
  let ?env = "example_env (\<lambda>apiMedia. Inr (JBuffer [1, 2, 3]))"
  let ?m = "[(''type'', JStr ''sticker''),
           (''apiMedia'', JInst ''MessageMediaDocument''
                            [(''document'', JInst ''Document'' [(''id'', JStr ''f1'')])]),
           (''messageUUID'', JStr ''u1''),
           (''base64'', JStr ''AAAA'')]"
  have h: "get ?m ''type'' = JStr ''sticker''"
    "property (get ?m ''apiMedia'') ''document'' = Inr (JInst ''Document'' [(''id'', JStr ''f1'')])"
    "property (JInst ''Document'' [(''id'', JStr ''f1'')]) ''id'' = Inr (JStr ''f1'')"
    "getMe ?env = Inr ''42''"
    "get (example_message [example_sticker]) ''chatId'' = JStr ''7''"
    by (simp_all add: property_def example_defs)
  have f: "findStickerByFileId (JStr ''f1'') (stickers (example_world [cached_sticker])) = Some cached_sticker"
    "findStickerByFileId (JStr ''f1'') (stickers (example_world [])) = None"
    by (simp_all add: findStickerByFileId_def select_by_file_id_def example_defs)
  from sticker_lookup_before_download[OF h, of "example_world [cached_sticker]" "[]" "example_world []"] f(1)
  have a: "snd (resolveMedia ?env (example_message [example_sticker]) (JObj ?m) (example_world [cached_sticker]))
              = Inr (JObj (assign ''byte''
                      (if sticker_bytes cached_sticker = JNull \<or> sticker_bytes cached_sticker = JUndefined
                       then JUndefined else sticker_bytes cached_sticker) ?m))
            \<and> downloads (fst (resolveMedia ?env (example_message [example_sticker]) (JObj ?m) (example_world [cached_sticker])))
                = downloads (example_world [cached_sticker])"
    by blast
  from sticker_lookup_before_download[OF h, of "example_world []" "[]" "example_world []"] f(2)
  have b: "downloads (fst (resolveMedia ?env (example_message [example_sticker]) (JObj ?m) (example_world [])))
             = downloads (example_world []) @ [get ?m ''apiMedia'']"
    by blast
  from a b show ?thesis by (simp add: example_sticker_def example_world_def cached_sticker_def)
qed

text \<open>
  C9 asks that no attachment returned by the resolver carries a \<open>base64\<close> field, on the
  cache-hit path as on the download path.  The code at a sticker attachment that carries
  \<open>base64\<close>: with the sticker cached, the returned attachment is the spread of the input
  and still holds the field; with an empty table, the same attachment goes through the
  download path and comes back without it.
\<close>

theorem sticker_hit_keeps_base64:
  "snd (resolveMedia (example_env (\<lambda>apiMedia. Inr (JBuffer [1, 2, 3])))
          (example_message [example_sticker]) example_sticker (example_world [cached_sticker]))
     = Inr (JObj [(''type'', JStr ''sticker''),
                  (''apiMedia'', JInst ''MessageMediaDocument''
                                   [(''document'', JInst ''Document'' [(''id'', JStr ''f1'')])]),
                  (''messageUUID'', JStr ''u1''),
                  (''base64'', JStr ''AAAA''),
                  (''byte'', JBuffer [7, 7])])
   \<and> get (props (projr (snd (resolveMedia (example_env (\<lambda>apiMedia. Inr (JBuffer [1, 2, 3])))
          (example_message [example_sticker]) example_sticker (example_world [cached_sticker])))))
        ''base64'' = JStr ''AAAA''
   \<and> get (props (projr (snd (resolveMedia (example_env (\<lambda>apiMedia. Inr (JBuffer [1, 2, 3])))
          (example_message [example_sticker]) example_sticker (example_world [])))))
        ''base64'' = JUndefined"
  by (simp add: example_defs media_defs)

end
